theory Spec2Isabelle
  imports Main
begin

section \<open>Data model\<close>

text \<open>
  The game keeps its board as an array of arrays whose cells are \<^verbatim>\<open>null\<close>,
  \<^verbatim>\<open>'black'\<close> or \<^verbatim>\<open>'white'\<close>. A cell is modelled as a \<open>player option\<close>
  (\<open>None\<close> is \<^verbatim>\<open>null\<close>), a board as a list of rows. Coordinates are JavaScript
  numbers; the model covers the integers.
\<close>

datatype player = Black | White

type_synonym cell = "player option"

type_synonym board = "cell list list"

datatype status = Playing | Won | Draw

text \<open>
  What the source throws. \<open>GameOverError\<close> stands for the \<^verbatim>\<open>Error\<close> that
  \<^verbatim>\<open>makeMove\<close> throws when the game has ended, \<open>InvalidMoveError\<close> for the one
  it throws when the position is invalid. \<open>TypeError\<close> is what JavaScript raises when a
  property of \<^verbatim>\<open>undefined\<close> or \<^verbatim>\<open>null\<close> is read or written, \<open>SyntaxError\<close>
  what \<^verbatim>\<open>JSON.parse\<close> raises.
\<close>

datatype error = GameOverError | InvalidMoveError | TypeError | SyntaxError

text \<open>Reading an array element either finds a value or yields \<^verbatim>\<open>undefined\<close>.\<close>

datatype 'a js_read = Undefined | Defined 'a

record move =
  row :: int
  col :: int
  player :: player
  moveNumber :: nat
  timestamp :: int

record game_board =
  board :: board
  moveHistory :: "move list"
  currentPlayer :: player
  gameStatus :: status
  winner :: "player option"

section \<open>GameLogic\<close>

definition BOARD_SIZE :: int where
  "BOARD_SIZE = 15"

definition WINNING_LENGTH :: nat where
  "WINNING_LENGTH = 5"

text \<open>
  The expression \<^verbatim>\<open>board[r][c]\<close>: a \<^verbatim>\<open>TypeError\<close> when \<^verbatim>\<open>board[r]\<close> is
  \<^verbatim>\<open>undefined\<close> (no such row), \<^verbatim>\<open>undefined\<close> when the row has no such element.
\<close>

definition readCell :: "board \<Rightarrow> int \<Rightarrow> int \<Rightarrow> error + cell js_read" where
  "readCell b r c =
     (if 0 \<le> r \<and> r < int (length b) then
        (if 0 \<le> c \<and> c < int (length (b ! nat r)) then Inr (Defined (b ! nat r ! nat c))
         else Inr Undefined)
      else Inl TypeError)"

definition isValidMove :: "board \<Rightarrow> int \<Rightarrow> int \<Rightarrow> error + bool" where
  "isValidMove b r c =
     (if r < 0 \<or> r \<ge> BOARD_SIZE \<or> c < 0 \<or> c \<ge> BOARD_SIZE then Inr False
      else case readCell b r c of
             Inl e \<Rightarrow> Inl e
           | Inr v \<Rightarrow> Inr (v = Defined None))"

text \<open>
  The \<^verbatim>\<open>while\<close> loop of \<^verbatim>\<open>checkWinner\<close>, walking from \<open>(r, c)\<close> in steps of
  \<open>(dx, dy)\<close>. Nothing in the loop itself bounds it when \<open>dx = dy = 0\<close>, so it is a
  partial function: \<open>None\<close> is a loop that never ends.
\<close>

partial_function (option) whileRay ::
  "board \<Rightarrow> player \<Rightarrow> int \<Rightarrow> int \<Rightarrow> int \<Rightarrow> int \<Rightarrow> nat \<Rightarrow> (error + nat) option" where
  "whileRay b p dx dy r c count =
     (if r \<ge> 0 \<and> r < BOARD_SIZE \<and> c \<ge> 0 \<and> c < BOARD_SIZE then
        (case readCell b r c of
           Inl e \<Rightarrow> Some (Inl e)
         | Inr v \<Rightarrow>
             if v = Defined (Some p) then whileRay b p dx dy (r + dx) (c + dy) (count + 1)
             else Some (Inr count))
      else Some (Inr count))"

declare whileRay.simps [code]

text \<open>The inner \<^verbatim>\<open>for\<close> loop over the two opposite rays of one direction.\<close>

fun forRays ::
  "board \<Rightarrow> player \<Rightarrow> int \<Rightarrow> int \<Rightarrow> (int \<times> int) list \<Rightarrow> nat \<Rightarrow> (error + nat) option" where
  "forRays b p r c [] count = Some (Inr count)"
| "forRays b p r c ((dx, dy) # rest) count =
     (case whileRay b p dx dy (r + dx) (c + dy) count of
        None \<Rightarrow> None
      | Some (Inl e) \<Rightarrow> Some (Inl e)
      | Some (Inr count') \<Rightarrow> forRays b p r c rest count')"

definition directions :: "(int \<times> int) list list" where
  "directions =
     [[(0, 1), (0, -1)],
      [(1, 0), (-1, 0)],
      [(1, 1), (-1, -1)],
      [(1, -1), (-1, 1)]]"

text \<open>The outer \<^verbatim>\<open>for\<close> loop, returning at the first direction that reaches five.\<close>

fun forDirections ::
  "board \<Rightarrow> player \<Rightarrow> int \<Rightarrow> int \<Rightarrow> (int \<times> int) list list \<Rightarrow> (error + bool) option" where
  "forDirections b p r c [] = Some (Inr False)"
| "forDirections b p r c (direction # rest) =
     (case forRays b p r c direction 1 of
        None \<Rightarrow> None
      | Some (Inl e) \<Rightarrow> Some (Inl e)
      | Some (Inr count) \<Rightarrow>
          if count \<ge> WINNING_LENGTH then Some (Inr True)
          else forDirections b p r c rest)"

definition checkWinner :: "board \<Rightarrow> int \<Rightarrow> int \<Rightarrow> player \<Rightarrow> (error + bool) option" where
  "checkWinner b r c p = forDirections b p r c directions"

text \<open>
  The two nested loops of \<^verbatim>\<open>checkDraw\<close> visit the cells in row-major order and return
  at the first \<^verbatim>\<open>null\<close>.
\<close>

fun checkDraw_loop :: "board \<Rightarrow> (int \<times> int) list \<Rightarrow> error + bool" where
  "checkDraw_loop b [] = Inr True"
| "checkDraw_loop b ((r, c) # rest) =
     (case readCell b r c of
        Inl e \<Rightarrow> Inl e
      | Inr v \<Rightarrow> if v = Defined None then Inr False else checkDraw_loop b rest)"

definition checkDraw :: "board \<Rightarrow> error + bool" where
  "checkDraw b = checkDraw_loop b (List.product [0..BOARD_SIZE - 1] [0..BOARD_SIZE - 1])"

section \<open>GameBoard\<close>

definition boardSize :: int where
  "boardSize = 15"

definition createEmptyBoard :: board where
  "createEmptyBoard = replicate (nat boardSize) (replicate (nat boardSize) None)"

text \<open>The state the constructor builds.\<close>

definition newGameBoard :: game_board where
  "newGameBoard =
     \<lparr>board = createEmptyBoard, moveHistory = [], currentPlayer = Black,
      gameStatus = Playing, winner = None\<rparr>"

definition reset :: "game_board \<Rightarrow> game_board" where
  "reset s =
     s\<lparr>board := createEmptyBoard, moveHistory := [], currentPlayer := Black,
       gameStatus := Playing, winner := None\<rparr>"

text \<open>
  The assignment \<^verbatim>\<open>board[r][c] = v\<close>: a \<^verbatim>\<open>TypeError\<close> when there is no row \<open>r\<close>.
  For \<open>c\<close> outside the row JavaScript would change the shape of the array, which a row of
  cells cannot express; the list update leaves the row as it is there, and every statement
  below about a write is made for \<open>c\<close> inside the row.
\<close>

definition writeCell :: "board \<Rightarrow> int \<Rightarrow> int \<Rightarrow> cell \<Rightarrow> error + board" where
  "writeCell b r c v =
     (if 0 \<le> r \<and> r < int (length b) then Inr (b[nat r := (b ! nat r)[nat c := v]])
      else Inl TypeError)"

definition other :: "player \<Rightarrow> player" where
  "other p = (if p = Black then White else Black)"

text \<open>
  \<^verbatim>\<open>makeMove(row, col)\<close>, with the value of \<^verbatim>\<open>Date.now()\<close> as the parameter \<open>now\<close>.
  The result pairs what the call returns or throws with the state it leaves behind; the
  outer \<open>option\<close> is \<open>None\<close> when the scan of \<^verbatim>\<open>checkWinner\<close> does not end.
\<close>

definition makeMove ::
  "int \<Rightarrow> int \<Rightarrow> int \<Rightarrow> game_board \<Rightarrow> ((error + bool) \<times> game_board) option" where
  "makeMove r c now s =
     (if gameStatus s \<noteq> Playing then Some (Inl GameOverError, s)
      else
        (case isValidMove (board s) r c of
           Inl e \<Rightarrow> Some (Inl e, s)
         | Inr valid \<Rightarrow>
             if \<not> valid then Some (Inl InvalidMoveError, s)
             else
               (case writeCell (board s) r c (Some (currentPlayer s)) of
                  Inl e \<Rightarrow> Some (Inl e, s)
                | Inr b' \<Rightarrow>
                    (let s1 = s\<lparr>board := b'\<rparr>;
                         m = \<lparr>row = r, col = c, player = currentPlayer s1,
                              moveNumber = length (moveHistory s1) + 1, timestamp = now\<rparr>;
                         s2 = s1\<lparr>moveHistory := moveHistory s1 @ [m]\<rparr>
                     in
                       (case checkWinner (board s2) r c (currentPlayer s2) of
                          None \<Rightarrow> None
                        | Some (Inl e) \<Rightarrow> Some (Inl e, s2)
                        | Some (Inr won) \<Rightarrow>
                            if won then
                              Some (Inr True,
                                    s2\<lparr>gameStatus := Won, winner := Some (currentPlayer s2)\<rparr>)
                            else
                              (case checkDraw (board s2) of
                                 Inl e \<Rightarrow> Some (Inl e, s2)
                               | Inr draw \<Rightarrow>
                                   if draw then Some (Inr True, s2\<lparr>gameStatus := Draw\<rparr>)
                                   else
                                     Some (Inr True,
                                           s2\<lparr>currentPlayer := other (currentPlayer s2)\<rparr>)))))))"

text \<open>
  \<^verbatim>\<open>undo()\<close>. The move is popped before the cell is written, so a \<^verbatim>\<open>TypeError\<close>
  from the write leaves the shortened history behind.
\<close>

definition undo :: "game_board \<Rightarrow> (error + bool) \<times> game_board" where
  "undo s =
     (if length (moveHistory s) = 0 then (Inr False, s)
      else if gameStatus s \<noteq> Playing then (Inr False, s)
      else
        let lastMove = last (moveHistory s);
            s1 = s\<lparr>moveHistory := butlast (moveHistory s)\<rparr>
        in case writeCell (board s1) (row lastMove) (col lastMove) None of
             Inl e \<Rightarrow> (Inl e, s1)
           | Inr b' \<Rightarrow> (Inr True, s1\<lparr>board := b', currentPlayer := player lastMove\<rparr>))"

definition getBoardCopy :: "game_board \<Rightarrow> board" where
  "getBoardCopy s = map (\<lambda>r. r) (board s)"

definition getPiece :: "game_board \<Rightarrow> int \<Rightarrow> int \<Rightarrow> error + cell js_read" where
  "getPiece s r c =
     (if r < 0 \<or> r \<ge> boardSize \<or> c < 0 \<or> c \<ge> boardSize then Inr (Defined None)
      else readCell (board s) r c)"

definition getCurrentPlayer :: "game_board \<Rightarrow> player" where
  "getCurrentPlayer s = currentPlayer s"

definition getGameStatus :: "game_board \<Rightarrow> status" where
  "getGameStatus s = gameStatus s"

definition getWinner :: "game_board \<Rightarrow> player option" where
  "getWinner s = winner s"

definition getMoveHistory :: "game_board \<Rightarrow> move list" where
  "getMoveHistory s = moveHistory s"

definition isEmpty :: "game_board \<Rightarrow> int \<Rightarrow> int \<Rightarrow> error + bool" where
  "isEmpty s r c =
     (case getPiece s r c of
        Inl e \<Rightarrow> Inl e
      | Inr v \<Rightarrow> Inr (v = Defined None))"

section \<open>GameController: saving and loading\<close>

text \<open>
  \<^verbatim>\<open>loadGame\<close> stores whatever \<^verbatim>\<open>JSON.parse\<close> returns into the fields of the
  board object, so those fields are JavaScript values of any shape.
\<close>

datatype jsval =
    JUndefined
  | JNull
  | JBool bool
  | JNum int
  | JStr string
  | JArr "jsval list"
  | JObj "(string \<times> jsval) list"

text \<open>
  The saved game is a string that only \<^verbatim>\<open>JSON.parse\<close> ever looks at. It is modelled
  by what \<^verbatim>\<open>JSON.parse\<close> makes of it: a \<^verbatim>\<open>SyntaxError\<close>, or a value.
  \<^verbatim>\<open>JSON.stringify\<close> and \<^verbatim>\<open>JSON.parse\<close> belong to the language: on a value
  built from \<^verbatim>\<open>null\<close>, booleans, integers, strings, arrays and objects,
  \<^verbatim>\<open>JSON.parse(JSON.stringify(v))\<close> is a copy of \<open>v\<close>. \<open>JSON_stringify\<close> is
  applied to such values only.
\<close>

datatype json_text = Malformed | Encodes jsval

definition JSON_parse :: "json_text \<Rightarrow> error + jsval" where
  "JSON_parse t = (case t of Malformed \<Rightarrow> Inl SyntaxError | Encodes v \<Rightarrow> Inr v)"

definition JSON_stringify :: "jsval \<Rightarrow> json_text" where
  "JSON_stringify v = Encodes v"

text \<open>
  The property read \<^verbatim>\<open>v.k\<close> for the five keys \<^verbatim>\<open>loadGame\<close> reads: a
  \<^verbatim>\<open>TypeError\<close> on \<^verbatim>\<open>null\<close> and \<^verbatim>\<open>undefined\<close>, the property of an object,
  \<^verbatim>\<open>undefined\<close> when the object has no such property or the value is a number, a
  boolean, a string or an array.
\<close>

definition getProp :: "jsval \<Rightarrow> string \<Rightarrow> error + jsval" where
  "getProp v k =
     (case v of
        JUndefined \<Rightarrow> Inl TypeError
      | JNull \<Rightarrow> Inl TypeError
      | JObj kvs \<Rightarrow> Inr (case map_of kvs k of None \<Rightarrow> JUndefined | Some x \<Rightarrow> x)
      | _ \<Rightarrow> Inr JUndefined)"

record raw_game_board =
  raw_board :: jsval
  raw_moveHistory :: jsval
  raw_currentPlayer :: jsval
  raw_gameStatus :: jsval
  raw_winner :: jsval

definition js_of_player :: "player \<Rightarrow> jsval" where
  "js_of_player p = (case p of Black \<Rightarrow> JStr ''black'' | White \<Rightarrow> JStr ''white'')"

definition js_of_cell :: "cell \<Rightarrow> jsval" where
  "js_of_cell x = (case x of None \<Rightarrow> JNull | Some p \<Rightarrow> js_of_player p)"

definition js_of_board :: "board \<Rightarrow> jsval" where
  "js_of_board b = JArr (map (\<lambda>r. JArr (map js_of_cell r)) b)"

definition js_of_move :: "move \<Rightarrow> jsval" where
  "js_of_move m =
     JObj [(''row'', JNum (row m)), (''col'', JNum (col m)), (''player'', js_of_player (player m)),
           (''moveNumber'', JNum (int (moveNumber m))), (''timestamp'', JNum (timestamp m))]"

definition js_of_status :: "status \<Rightarrow> jsval" where
  "js_of_status g =
     (case g of Playing \<Rightarrow> JStr ''playing'' | Won \<Rightarrow> JStr ''won'' | Draw \<Rightarrow> JStr ''draw'')"

text \<open>The board object of a typed state, field by field.\<close>

definition raw_of :: "game_board \<Rightarrow> raw_game_board" where
  "raw_of s =
     \<lparr>raw_board = js_of_board (board s),
      raw_moveHistory = JArr (map js_of_move (moveHistory s)),
      raw_currentPlayer = js_of_player (currentPlayer s),
      raw_gameStatus = js_of_status (gameStatus s),
      raw_winner = js_of_cell (winner s)\<rparr>"

text \<open>\<^verbatim>\<open>saveGame()\<close>, with the value of \<^verbatim>\<open>Date.now()\<close> as the parameter \<open>now\<close>.\<close>

definition saveGame :: "int \<Rightarrow> game_board \<Rightarrow> json_text" where
  "saveGame now s =
     JSON_stringify
       (JObj [(''board'', js_of_board (getBoardCopy s)),
              (''moveHistory'', JArr (map js_of_move (getMoveHistory s))),
              (''currentPlayer'', js_of_player (getCurrentPlayer s)),
              (''gameStatus'', js_of_status (getGameStatus s)),
              (''winner'', js_of_cell (getWinner s)),
              (''timestamp'', JNum now)])"

text \<open>
  \<^verbatim>\<open>loadGame(gameStateJson)\<close>. The five assignments run one after the other inside
  the \<^verbatim>\<open>try\<close> block, then the three calls into the renderer; anything thrown on the
  way is caught and \<^verbatim>\<open>false\<close> is returned, with the assignments made so far left in
  place. The renderer is not part of the model: \<open>ui\<close> tells whether its three calls
  return without throwing on the state they are given.
\<close>

definition loadGame ::
  "(raw_game_board \<Rightarrow> bool) \<Rightarrow> json_text \<Rightarrow> raw_game_board \<Rightarrow> bool \<times> raw_game_board" where
  "loadGame ui gameStateJson s =
     (case JSON_parse gameStateJson of
        Inl e \<Rightarrow> (False, s)
      | Inr gameState \<Rightarrow>
          (case getProp gameState ''board'' of
             Inl e \<Rightarrow> (False, s)
           | Inr v1 \<Rightarrow>
               (let s1 = s\<lparr>raw_board := v1\<rparr> in
                (case getProp gameState ''moveHistory'' of
                   Inl e \<Rightarrow> (False, s1)
                 | Inr v2 \<Rightarrow>
                     (let s2 = s1\<lparr>raw_moveHistory := v2\<rparr> in
                      (case getProp gameState ''currentPlayer'' of
                         Inl e \<Rightarrow> (False, s2)
                       | Inr v3 \<Rightarrow>
                           (let s3 = s2\<lparr>raw_currentPlayer := v3\<rparr> in
                            (case getProp gameState ''gameStatus'' of
                               Inl e \<Rightarrow> (False, s3)
                             | Inr v4 \<Rightarrow>
                                 (let s4 = s3\<lparr>raw_gameStatus := v4\<rparr> in
                                  (case getProp gameState ''winner'' of
                                     Inl e \<Rightarrow> (False, s4)
                                   | Inr v5 \<Rightarrow>
                                       (let s5 = s4\<lparr>raw_winner := v5\<rparr>
                                        in (ui s5, s5))))))))))))"

section \<open>Helpers: display coordinates\<close>

definition letters :: string where
  "letters = ''ABCDEFGHIJKLMNO''"

text \<open>The decimal digits of a non-negative integer, as number-to-string conversion writes them.\<close>

fun decimal :: "nat \<Rightarrow> string" where
  "decimal n =
     (if n < 10 then [char_of (48 + n)]
      else decimal (n div 10) @ [char_of (48 + n mod 10)])"

definition numberToString :: "int \<Rightarrow> string" where
  "numberToString i = (if i < 0 then CHR ''-'' # decimal (nat (- i)) else decimal (nat i))"

text \<open>
  \<^verbatim>\<open>letters[col]\<close> is \<^verbatim>\<open>undefined\<close> outside the string, and the template literal
  prints that as the word.
\<close>

definition boardToDisplayCoords :: "int \<Rightarrow> int \<Rightarrow> string" where
  "boardToDisplayCoords r c =
     (let letter = (if 0 \<le> c \<and> c < int (length letters) then [letters ! nat c]
                    else ''undefined'');
          number = 15 - r
      in letter @ numberToString number)"

text \<open>
  The match against \<^verbatim>\<open>/^([A-O])([1-9]|1[0-5])$/i\<close>: the whole string is one letter from
  A to O in either case, then one digit from 1 to 9, or a 1 and one digit from 0 to 5. The
  result is the two groups.
\<close>

definition matchDisplay :: "string \<Rightarrow> (char \<times> string) option" where
  "matchDisplay s =
     (case s of
        [] \<Rightarrow> None
      | l # ds \<Rightarrow>
          if (l \<in> set ''ABCDEFGHIJKLMNO'' \<or> l \<in> set ''abcdefghijklmno'') \<and>
             (case ds of
                [d] \<Rightarrow> d \<in> set ''123456789''
              | [d1, d2] \<Rightarrow> d1 = CHR ''1'' \<and> d2 \<in> set ''012345''
              | _ \<Rightarrow> False)
          then Some (l, ds) else None)"

definition toUpperCase :: "char \<Rightarrow> char" where
  "toUpperCase ch =
     (if 97 \<le> (of_char ch :: nat) \<and> (of_char ch :: nat) \<le> 122
      then char_of ((of_char ch :: nat) - 32) else ch)"

text \<open>\<^verbatim>\<open>parseInt\<close> on a string of decimal digits.\<close>

definition parseInt :: "string \<Rightarrow> int" where
  "parseInt ds = int (foldl (\<lambda>n d. 10 * n + ((of_char d :: nat) - 48)) 0 ds)"

fun indexOf :: "string \<Rightarrow> char \<Rightarrow> int" where
  "indexOf [] ch = - 1"
| "indexOf (x # xs) ch =
     (if x = ch then 0
      else (let i = indexOf xs ch in if i = - 1 then - 1 else i + 1))"

text \<open>The result is the pair \<open>(row, col)\<close>, or \<open>None\<close> for \<^verbatim>\<open>null\<close>.\<close>

definition displayToBoardCoords :: "string \<Rightarrow> (int \<times> int) option" where
  "displayToBoardCoords displayCoords =
     (case matchDisplay displayCoords of
        None \<Rightarrow> None
      | Some (g1, g2) \<Rightarrow>
          (let letter = toUpperCase g1;
               number = parseInt g2;
               c = indexOf letters letter;
               r = 15 - number
           in if c = - 1 \<or> r < 0 \<or> r \<ge> 15 then None else Some (r, c)))"

section \<open>Vocabulary of the specification\<close>

text \<open>A board of the data model: fifteen rows of fifteen cells.\<close>

definition wf_board :: "board \<Rightarrow> bool" where
  "wf_board b = (length b = 15 \<and> list_all (\<lambda>r. length r = 15) b)"

definition onBoard :: "int \<Rightarrow> int \<Rightarrow> bool" where
  "onBoard r c = (0 \<le> r \<and> r < 15 \<and> 0 \<le> c \<and> c < 15)"

text \<open>
  Win detection as the specification words it. A ray leaves the placed stone in one
  direction; its count is the number of cells, taken in order along the ray, that are on
  the board and hold the player's stone, up to the first that is not. From a cell of the
  board a ray has at most fourteen cells on the board.
\<close>

definition stoneAt :: "board \<Rightarrow> player \<Rightarrow> int \<Rightarrow> int \<Rightarrow> bool" where
  "stoneAt b p r c = (onBoard r c \<and> b ! nat r ! nat c = Some p)"

definition rayCount :: "board \<Rightarrow> player \<Rightarrow> int \<Rightarrow> int \<Rightarrow> int \<times> int \<Rightarrow> nat" where
  "rayCount b p r c d =
     length (takeWhile (\<lambda>k. stoneAt b p (r + int k * fst d) (c + int k * snd d)) [1..<15])"

text \<open>The four axes, each as its two opposite rays: horizontal, vertical, two diagonals.\<close>

definition axes :: "((int \<times> int) \<times> (int \<times> int)) list" where
  "axes = [((0, 1), (0, - 1)), ((1, 0), (- 1, 0)), ((1, 1), (- 1, - 1)), ((1, - 1), (- 1, 1))]"

definition axisCount ::
  "board \<Rightarrow> player \<Rightarrow> int \<Rightarrow> int \<Rightarrow> (int \<times> int) \<times> (int \<times> int) \<Rightarrow> nat" where
  "axisCount b p r c axis = 1 + rayCount b p r c (fst axis) + rayCount b p r c (snd axis)"

definition fiveInARow :: "board \<Rightarrow> int \<Rightarrow> int \<Rightarrow> player \<Rightarrow> bool" where
  "fiveInARow b r c p = (\<exists>axis \<in> set axes. 5 \<le> axisCount b p r c axis)"

text \<open>The number of non-empty cells of a board.\<close>

definition stones :: "board \<Rightarrow> nat" where
  "stones b = length (filter (\<lambda>x. x \<noteq> None) (concat b))"

text \<open>
  The session states that \<^verbatim>\<open>makeMove\<close>, \<^verbatim>\<open>undo\<close> and \<^verbatim>\<open>reset\<close> can produce
  from a new game, whatever their arguments and results.
\<close>

inductive reachable :: "game_board \<Rightarrow> bool" where
  reachable_new: "reachable newGameBoard"
| reachable_makeMove: "reachable s \<Longrightarrow> makeMove r c now s = Some (res, s') \<Longrightarrow> reachable s'"
| reachable_undo: "reachable s \<Longrightarrow> undo s = (res, s') \<Longrightarrow> reachable s'"
| reachable_reset: "reachable s \<Longrightarrow> reachable (reset s)"

text \<open>
  The state \<^verbatim>\<open>makeMove\<close> has built once the stone is on the board and the move is in
  the history, before it looks for a winner.
\<close>

definition placed :: "int \<Rightarrow> int \<Rightarrow> int \<Rightarrow> game_board \<Rightarrow> game_board" where
  "placed r c now s =
     s\<lparr>board := (board s)[nat r := (board s ! nat r)[nat c := Some (currentPlayer s)]],
       moveHistory := moveHistory s @
         [\<lparr>row = r, col = c, player = currentPlayer s,
           moveNumber = length (moveHistory s) + 1, timestamp = now\<rparr>]\<rparr>"

text \<open>
  What holds of every state the three operations can produce: the board has its shape,
  every move of the history lies on the board on a cell that is not empty, no two moves
  share a cell, and there are as many moves as stones.
\<close>

definition consistent :: "game_board \<Rightarrow> bool" where
  "consistent s =
     (wf_board (board s) \<and>
      (\<forall>m \<in> set (moveHistory s).
         onBoard (row m) (col m) \<and> board s ! nat (row m) ! nat (col m) \<noteq> None) \<and>
      distinct (map (\<lambda>m. (row m, col m)) (moveHistory s)) \<and>
      length (moveHistory s) = stones (board s))"

section \<open>States and boards used as examples\<close>

text \<open>A new game after Black has played the centre at time \<open>0\<close>.\<close>

definition afterFirstMove :: game_board where
  "afterFirstMove =
     \<lparr>board = createEmptyBoard[7 := (createEmptyBoard ! 7)[7 := Some Black]],
      moveHistory = [\<lparr>row = 7, col = 7, player = Black, moveNumber = 1, timestamp = 0\<rparr>],
      currentPlayer = White, gameStatus = Playing, winner = None\<rparr>"

text \<open>
  The game of the winning test, move by move at time \<open>0\<close>: Black on row 7 from column 5,
  White below on row 8, up to the eighth move.
\<close>

definition testMove :: "int \<Rightarrow> int \<Rightarrow> player \<Rightarrow> nat \<Rightarrow> move" where
  "testMove r c p n = \<lparr>row = r, col = c, player = p, moveNumber = n, timestamp = 0\<rparr>"

definition beforeWin :: game_board where
  "beforeWin =
     \<lparr>board = createEmptyBoard
        [7 := (createEmptyBoard ! 7)
                [5 := Some Black, 6 := Some Black, 7 := Some Black, 8 := Some Black],
         8 := (createEmptyBoard ! 8)
                [5 := Some White, 6 := Some White, 7 := Some White, 8 := Some White]],
      moveHistory =
        [testMove 7 5 Black 1, testMove 8 5 White 2, testMove 7 6 Black 3, testMove 8 6 White 4,
         testMove 7 7 Black 5, testMove 8 7 White 6, testMove 7 8 Black 7, testMove 8 8 White 8],
      currentPlayer = Black, gameStatus = Playing, winner = None\<rparr>"

text \<open>The same game once Black has played column 9 and won.\<close>

definition wonGame :: game_board where
  "wonGame =
     beforeWin
       \<lparr>board := (board beforeWin)[7 := (board beforeWin ! 7)[9 := Some Black]],
        moveHistory := moveHistory beforeWin @ [testMove 7 9 Black 9],
        gameStatus := Won, winner := Some Black\<rparr>"

text \<open>A run of calls to \<^verbatim>\<open>makeMove\<close>, as the tests make them, each at time \<open>0\<close>.\<close>

fun playMoves :: "(int \<times> int) list \<Rightarrow> game_board \<Rightarrow> game_board option" where
  "playMoves [] s = Some s"
| "playMoves ((r, c) # ms) s =
     (case makeMove r c 0 s of None \<Rightarrow> None | Some (res, s') \<Rightarrow> playMoves ms s')"

text \<open>The board of the horizontal test: black stones on row 7, columns 5 to 9.\<close>

definition fiveBlack :: board where
  "fiveBlack =
     createEmptyBoard[7 := (createEmptyBoard ! 7)
       [5 := Some Black, 6 := Some Black, 7 := Some Black, 8 := Some Black, 9 := Some Black]]"

text \<open>Four black stones on row 7, columns 5 to 8, with a white stone at each end.\<close>

definition fourBlocked :: board where
  "fourBlocked =
     createEmptyBoard[7 := (createEmptyBoard ! 7)
       [4 := Some White, 5 := Some Black, 6 := Some Black, 7 := Some Black, 8 := Some Black,
        9 := Some White]]"

text \<open>Four black stones on row 7 from the left edge, columns 0 to 3, then a white stone.\<close>

definition fourAtEdge :: board where
  "fourAtEdge =
     createEmptyBoard[7 := (createEmptyBoard ! 7)
       [0 := Some Black, 1 := Some Black, 2 := Some Black, 3 := Some Black, 4 := Some White]]"


section \<open>Properties of the model\<close>

subsection \<open>Reads and writes on a well-formed board\<close>

lemma readCell_wf:
  "wf_board b \<Longrightarrow> onBoard r c \<Longrightarrow> readCell b r c = Inr (Defined (b ! nat r ! nat c))"
  by (auto simp: wf_board_def onBoard_def readCell_def list_all_iff)

lemma writeCell_wf:
  "wf_board b \<Longrightarrow> onBoard r c \<Longrightarrow>
   writeCell b r c v = Inr (b[nat r := (b ! nat r)[nat c := v]])"
  by (auto simp: wf_board_def onBoard_def writeCell_def)

lemma wf_board_update:
  assumes wf: "wf_board b"
  shows "wf_board (b[i := (b ! i)[j := v]])"
proof (cases "i < length b")
  case True
  then have "length ((b ! i)[j := v]) = 15"
    using wf by (simp add: wf_board_def list_all_iff)
  then show ?thesis
    using wf set_update_subset_insert[of b i "(b ! i)[j := v]"]
    by (auto simp: wf_board_def list_all_iff)
next
  case False
  then show ?thesis using wf by (simp add: list_update_beyond)
qed

lemma nth_board_update:
  "wf_board b \<Longrightarrow> onBoard r c \<Longrightarrow> onBoard r' c' \<Longrightarrow>
   b[nat r := (b ! nat r)[nat c := v]] ! nat r' ! nat c' =
     (if r' = r \<and> c' = c then v else b ! nat r' ! nat c')"
  by (auto simp: wf_board_def onBoard_def list_all_iff nth_list_update)

lemma isValidMove_wf:
  "wf_board b \<Longrightarrow> isValidMove b r c = Inr (onBoard r c \<and> b ! nat r ! nat c = None)"
  by (cases "onBoard r c") (auto simp: isValidMove_def readCell_wf, auto simp: onBoard_def BOARD_SIZE_def)

lemma isValidMove_off:
  "\<not> onBoard r c \<Longrightarrow> isValidMove b r c = Inr False"
  by (auto simp: isValidMove_def onBoard_def BOARD_SIZE_def)

subsection \<open>Counting stones\<close>

lemma length_filter_update:
  "i < length xs \<Longrightarrow>
   length (filter P (xs[i := v])) + (if P (xs ! i) then 1 else 0) =
   length (filter P xs) + (if P v then 1 else 0)"
proof (induction xs arbitrary: i)
  case Nil
  then show ?case by simp
next
  case (Cons x xs)
  show ?case
  proof (cases i)
    case 0
    then show ?thesis by simp
  next
    case (Suc k)
    then have "k < length xs" using Cons.prems by simp
    from Cons.IH[OF this] show ?thesis using Suc by simp
  qed
qed

lemma stones_update_row:
  "i < length b \<Longrightarrow>
   stones (b[i := r']) + length (filter (\<lambda>x. x \<noteq> None) (b ! i)) =
   stones b + length (filter (\<lambda>x. x \<noteq> None) r')"
proof (induction b arbitrary: i)
  case Nil
  then show ?case by simp
next
  case (Cons x xs)
  show ?case
  proof (cases i)
    case 0
    then show ?thesis by (simp add: stones_def)
  next
    case (Suc k)
    then have "k < length xs" using Cons.prems by simp
    from Cons.IH[OF this] show ?thesis using Suc by (simp add: stones_def)
  qed
qed

lemma stones_update:
  assumes "wf_board b" "onBoard r c"
  shows "stones (b[nat r := (b ! nat r)[nat c := v]]) + (if b ! nat r ! nat c \<noteq> None then 1 else 0) =
         stones b + (if v \<noteq> None then 1 else 0)"
proof -
  have i: "nat r < length b" and j: "nat c < length (b ! nat r)"
    using assms by (auto simp: wf_board_def onBoard_def list_all_iff)
  show ?thesis
    using stones_update_row[OF i, of "(b ! nat r)[nat c := v]"]
      length_filter_update[OF j, of "\<lambda>x. x \<noteq> None" v]
    by (simp split: if_splits)
qed


subsection \<open>The scan for five in a row\<close>

lemma whileRay_off: "\<not> onBoard r c \<Longrightarrow> whileRay b p dx dy r c n = Some (Inr n)"
  by (subst whileRay.simps) (auto simp: onBoard_def BOARD_SIZE_def)

lemma whileRay_on:
  "wf_board b \<Longrightarrow> onBoard r c \<Longrightarrow>
   whileRay b p dx dy r c n =
     (if b ! nat r ! nat c = Some p then whileRay b p dx dy (r + dx) (c + dy) (n + 1)
      else Some (Inr n))"
  by (subst whileRay.simps) (auto simp: readCell_wf, auto simp: onBoard_def BOARD_SIZE_def)

lemma whileRay_takeWhile:
  assumes wf: "wf_board b" and rc: "onBoard r c"
    and d: "dx \<noteq> 0 \<or> dy \<noteq> 0" "\<bar>dx\<bar> \<le> 1" "\<bar>dy\<bar> \<le> 1"
  shows "1 \<le> k \<Longrightarrow> k \<le> 15 \<Longrightarrow>
         whileRay b p dx dy (r + int k * dx) (c + int k * dy) n =
           Some (Inr (n + length (takeWhile
             (\<lambda>k. stoneAt b p (r + int k * dx) (c + int k * dy)) [k..<15])))"
proof (induction "15 - k" arbitrary: k n)
  case 0
  then have k: "k = 15" by simp
  have "\<not> onBoard (r + 15 * dx) (c + 15 * dy)"
    using rc d by (auto simp: onBoard_def)
  then show ?case using k by (simp add: whileRay_off)
next
  case (Suc m)
  then have k: "k < 15" by simp
  have upt: "[k..<15] = k # [Suc k..<15]" using k by (simp add: upt_conv_Cons)
  have step: "r + int k * dx + dx = r + int (Suc k) * dx" "c + int k * dy + dy = c + int (Suc k) * dy"
    by (simp_all add: algebra_simps)
  have IH: "whileRay b p dx dy (r + int (Suc k) * dx) (c + int (Suc k) * dy) (n + 1) =
           Some (Inr (n + 1 + length (takeWhile
             (\<lambda>k. stoneAt b p (r + int k * dx) (c + int k * dy)) [Suc k..<15])))"
    using Suc.hyps(1)[of "Suc k" "n + 1"] Suc.hyps(2) Suc.prems by simp
  show ?case
  proof (cases "onBoard (r + int k * dx) (c + int k * dy)")
    case False
    then show ?thesis by (simp add: whileRay_off upt stoneAt_def)
  next
    case True
    show ?thesis
      by (simp only: whileRay_on[OF wf True] step IH upt) (simp add: stoneAt_def True)
  qed
qed

lemma whileRay_rayCount:
  assumes "wf_board b" "onBoard r c" "dx \<noteq> 0 \<or> dy \<noteq> 0" "\<bar>dx\<bar> \<le> 1" "\<bar>dy\<bar> \<le> 1"
  shows "whileRay b p dx dy (r + dx) (c + dy) n = Some (Inr (n + rayCount b p r c (dx, dy)))"
  using whileRay_takeWhile[OF assms, of 1 p n] by (simp add: rayCount_def)

lemma forRays_pair:
  assumes "wf_board b" "onBoard r c"
    and "dx \<noteq> 0 \<or> dy \<noteq> 0" "\<bar>dx\<bar> \<le> 1" "\<bar>dy\<bar> \<le> 1"
    and "ex \<noteq> 0 \<or> ey \<noteq> 0" "\<bar>ex\<bar> \<le> 1" "\<bar>ey\<bar> \<le> 1"
  shows "forRays b p r c [(dx, dy), (ex, ey)] n =
           Some (Inr (n + rayCount b p r c (dx, dy) + rayCount b p r c (ex, ey)))"
  using assms by (simp add: whileRay_rayCount)

lemma checkWinner_wf:
  assumes "wf_board b" "onBoard r c"
  shows "checkWinner b r c p = Some (Inr (fiveInARow b r c p))"
  using assms
  by (simp add: checkWinner_def directions_def forRays_pair fiveInARow_def axes_def
      axisCount_def WINNING_LENGTH_def del: forRays.simps)

text \<open>
  The count of a ray is what the specification describes: every cell of the ray up to the
  count holds the player's stone, and the next one does not, or is off the board.
\<close>

lemma rayCount_char:
  assumes rc: "onBoard r c" and d: "dx \<noteq> 0 \<or> dy \<noteq> 0" "\<bar>dx\<bar> \<le> 1" "\<bar>dy\<bar> \<le> 1"
  shows "(\<forall>k. 1 \<le> k \<and> k \<le> rayCount b p r c (dx, dy) \<longrightarrow>
             stoneAt b p (r + int k * dx) (c + int k * dy)) \<and>
         \<not> stoneAt b p (r + int (rayCount b p r c (dx, dy) + 1) * dx)
                        (c + int (rayCount b p r c (dx, dy) + 1) * dy)"
proof -
  let ?P = "\<lambda>k. stoneAt b p (r + int k * dx) (c + int k * dy)"
  let ?n = "length (takeWhile ?P [1..<15])"
  have n: "rayCount b p r c (dx, dy) = ?n" by (simp add: rayCount_def)
  have le: "?n \<le> 14" using length_takeWhile_le[of ?P "[1..<15]"] by simp
  have run: "?P k" if "1 \<le> k" "k \<le> ?n" for k
  proof -
    have j: "k - 1 < ?n" using that by simp
    then have "takeWhile ?P [1..<15] ! (k - 1) = [1..<15] ! (k - 1)"
      by (rule takeWhile_nth)
    also have "\<dots> = k" using that le by simp
    finally have "k \<in> set (takeWhile ?P [1..<15])"
      using j nth_mem[of "k - 1" "takeWhile ?P [1..<15]"] by simp
    then show ?thesis by (rule set_takeWhileD[THEN conjunct2])
  qed
  have stop: "\<not> ?P (?n + 1)"
  proof (cases "?n < 14")
    case True
    then have "\<not> ?P ([1..<15] ! ?n)"
      using nth_length_takeWhile[of ?P "[1..<15]"] by simp
    then show ?thesis using True by (simp add: add.commute)
  next
    case False
    then have "?n = 14" using le by simp
    moreover have "\<not> onBoard (r + 15 * dx) (c + 15 * dy)"
      using rc d by (auto simp: onBoard_def)
    ultimately show ?thesis by (simp add: stoneAt_def)
  qed
  show ?thesis using run stop unfolding n by blast
qed

text \<open>
  The scan ends whatever the board holds, also a board of the wrong shape: none of the
  eight steps of the table is \<open>(0, 0)\<close>, so each pass of the loop moves towards an edge.
\<close>

lemma whileRay_returns:
  assumes d: "dx \<noteq> 0 \<or> dy \<noteq> 0"
  shows "\<exists>res. whileRay b p dx dy r c n = Some res"
proof (induction "if dx > 0 then nat (15 - r) else if dx < 0 then nat (r + 1)
                  else if dy > 0 then nat (15 - c) else nat (c + 1)"
       arbitrary: r c n rule: less_induct)
  case less
  show ?case
  proof (cases "onBoard r c \<and> readCell b r c = Inr (Defined (Some p))")
    case False
    then show ?thesis
      by (subst whileRay.simps) (auto simp: onBoard_def BOARD_SIZE_def split: sum.splits)
  next
    case True
    then have on: "onBoard r c" by simp
    have "(if dx > 0 then nat (15 - (r + dx)) else if dx < 0 then nat (r + dx + 1)
           else if dy > 0 then nat (15 - (c + dy)) else nat (c + dy + 1))
        < (if dx > 0 then nat (15 - r) else if dx < 0 then nat (r + 1)
           else if dy > 0 then nat (15 - c) else nat (c + 1))"
      using d on by (auto simp: onBoard_def)
    from less[OF this, of "n + 1"] obtain res where
      "whileRay b p dx dy (r + dx) (c + dy) (n + 1) = Some res" by blast
    then show ?thesis
      using True by (subst whileRay.simps) (auto simp: onBoard_def BOARD_SIZE_def)
  qed
qed

lemma forRays_returns:
  assumes "\<forall>(dx, dy) \<in> set ds. dx \<noteq> 0 \<or> dy \<noteq> 0"
  shows "\<exists>res. forRays b p r c ds n = Some res"
  using assms
proof (induction ds arbitrary: n)
  case Nil
  then show ?case by simp
next
  case (Cons x ds)
  obtain dx dy where x: "x = (dx, dy)" by (cases x)
  with Cons.prems have "dx \<noteq> 0 \<or> dy \<noteq> 0" by simp
  from whileRay_returns[OF this, of b p "r + dx" "c + dy" n] obtain res where
    w: "whileRay b p dx dy (r + dx) (c + dy) n = Some res" by blast
  show ?case
  proof (cases res)
    case (Inl e)
    then show ?thesis using w x by simp
  next
    case (Inr k)
    from Cons.IH[of k] Cons.prems obtain res' where "forRays b p r c ds k = Some res'"
      by auto
    then show ?thesis using w x Inr by simp
  qed
qed

lemma forDirections_returns:
  assumes "\<forall>ds \<in> set dss. \<forall>(dx, dy) \<in> set ds. dx \<noteq> 0 \<or> dy \<noteq> 0"
  shows "\<exists>res. forDirections b p r c dss = Some res"
  using assms
proof (induction dss)
  case Nil
  then show ?case by simp
next
  case (Cons ds dss)
  then have "\<forall>(dx, dy) \<in> set ds. dx \<noteq> 0 \<or> dy \<noteq> 0" by simp
  from forRays_returns[OF this, of b p r c 1] obtain res where
    f: "forRays b p r c ds 1 = Some res" by blast
  from Cons obtain res' where f': "forDirections b p r c dss = Some res'" by auto
  show ?case using f f' by (cases res) auto
qed

lemma checkWinner_returns: "\<exists>res. checkWinner b r c p = Some res"
  unfolding checkWinner_def
  by (rule forDirections_returns) (simp add: directions_def)

lemma makeMove_returns: "\<exists>res. makeMove r c now s = Some res"
proof -
  obtain res where "checkWinner
      (board (s\<lparr>board := (board s)[nat r := (board s ! nat r)[nat c := Some (currentPlayer s)]],
               moveHistory := moveHistory s @ [\<lparr>row = r, col = c, player = currentPlayer s,
                 moveNumber = length (moveHistory s) + 1, timestamp = now\<rparr>]\<rparr>)) r c (currentPlayer s) = Some res"
    using checkWinner_returns by blast
  then show ?thesis
    by (auto simp: makeMove_def Let_def writeCell_def split: sum.splits if_splits)
qed

subsection \<open>The scan for an empty cell\<close>

lemma checkDraw_loop_wf:
  assumes "wf_board b" "\<forall>(r, c) \<in> set ps. onBoard r c"
  shows "checkDraw_loop b ps = Inr (\<forall>(r, c) \<in> set ps. b ! nat r ! nat c \<noteq> None)"
  using assms(2)
proof (induction ps)
  case Nil
  then show ?case by simp
next
  case (Cons x ps)
  obtain r c where x: "x = (r, c)" by (cases x)
  with Cons.prems have "onBoard r c" by simp
  with Cons show ?case using x by (simp add: readCell_wf[OF assms(1)])
qed

lemma checkDraw_wf:
  assumes "wf_board b"
  shows "checkDraw b = Inr (\<forall>(r, c) \<in> set (List.product [0..14] [0..14]). b ! nat r ! nat c \<noteq> None)"
  unfolding checkDraw_def BOARD_SIZE_def
  using checkDraw_loop_wf[OF assms, of "List.product [0..14] [0..14]"]
  by (auto simp: onBoard_def)

subsection \<open>What makeMove and undo do on a well-formed board\<close>

lemma makeMove_wf:
  assumes "wf_board (board s)" "gameStatus s = Playing" "onBoard r c"
    "board s ! nat r ! nat c = None"
  shows "\<exists>w d. checkWinner (board (placed r c now s)) r c (currentPlayer s) = Some (Inr w) \<and>
           checkDraw (board (placed r c now s)) = Inr d \<and>
           makeMove r c now s =
             Some (Inr True,
                   (placed r c now s)
                     \<lparr>currentPlayer := (if w \<or> d then currentPlayer s else other (currentPlayer s)),
                      gameStatus := (if w then Won else if d then Draw else Playing),
                      winner := (if w then Some (currentPlayer s) else winner s)\<rparr>)"
proof -
  let ?b = "(board s)[nat r := (board s ! nat r)[nat c := Some (currentPlayer s)]]"
  have wf': "wf_board ?b" using assms(1) by (rule wf_board_update)
  have b: "board (placed r c now s) = ?b" by (simp add: placed_def)
  have w: "checkWinner ?b r c (currentPlayer s) = Some (Inr (fiveInARow ?b r c (currentPlayer s)))"
    using wf' assms(3) by (rule checkWinner_wf)
  obtain d where d: "checkDraw ?b = Inr d" using checkDraw_wf[OF wf'] by blast
  show ?thesis
    apply (rule exI[of _ "fiveInARow ?b r c (currentPlayer s)"])
    apply (rule exI[of _ d])
    using assms w d
    by (simp add: makeMove_def isValidMove_wf writeCell_wf b Let_def, simp add: placed_def)
qed


lemma wf_createEmptyBoard: "wf_board createEmptyBoard"
  by (simp add: wf_board_def createEmptyBoard_def boardSize_def list_all_iff)

lemma stones_createEmptyBoard: "stones createEmptyBoard = 0"
  by (auto simp: stones_def createEmptyBoard_def filter_empty_conv)

lemma consistent_new: "consistent newGameBoard"
  by (simp add: consistent_def newGameBoard_def wf_createEmptyBoard stones_createEmptyBoard)

lemma consistent_reset: "consistent (reset s)"
  by (simp add: consistent_def reset_def wf_createEmptyBoard stones_createEmptyBoard)

lemma consistent_placed:
  assumes c: "consistent s" and rc: "onBoard r c" and e: "board s ! nat r ! nat c = None"
  shows "consistent ((placed r c now s)\<lparr>currentPlayer := a, gameStatus := g, winner := w\<rparr>)"
proof -
  let ?b = "(board s)[nat r := (board s ! nat r)[nat c := Some (currentPlayer s)]]"
  have wf: "wf_board (board s)" using c by (simp add: consistent_def)
  have old: "onBoard (row m) (col m) \<and> board s ! nat (row m) ! nat (col m) \<noteq> None"
    if "m \<in> set (moveHistory s)" for m
    using c that by (simp add: consistent_def)
  have keep: "?b ! nat (row m) ! nat (col m) \<noteq> None" if "m \<in> set (moveHistory s)" for m
    using old[OF that] e by (auto simp: nth_board_update[OF wf rc])
  have new: "?b ! nat r ! nat c \<noteq> None"
    by (simp add: nth_board_update[OF wf rc rc])
  have fresh: "(r, c) \<notin> set (map (\<lambda>m. (row m, col m)) (moveHistory s))"
  proof
    assume "(r, c) \<in> set (map (\<lambda>m. (row m, col m)) (moveHistory s))"
    then obtain m where "m \<in> set (moveHistory s)" "row m = r" "col m = c" by auto
    with old[of m] e show False by simp
  qed
  have count: "stones ?b = stones (board s) + 1"
    using stones_update[OF wf rc, of "Some (currentPlayer s)"] e by simp
  show ?thesis
    using c rc keep new fresh count old
    by (auto simp: consistent_def placed_def wf_board_update[OF wf])
qed

lemma makeMove_result:
  assumes wf: "wf_board (board s)" and mv: "makeMove r c now s = Some (res, s')"
  shows "s' = s \<or>
         (onBoard r c \<and> board s ! nat r ! nat c = None \<and>
          (\<exists>a g w. s' = (placed r c now s)\<lparr>currentPlayer := a, gameStatus := g, winner := w\<rparr>))"
proof (cases "gameStatus s = Playing \<and> onBoard r c \<and> board s ! nat r ! nat c = None")
  case True
  then show ?thesis using makeMove_wf[OF wf, of r c now] mv by auto
next
  case False
  then have "s' = s"
    using mv by (auto simp: makeMove_def isValidMove_wf[OF wf] split: if_splits)
  then show ?thesis by simp
qed

lemma undo_result:
  assumes c: "consistent s" and u: "undo s = (res, s')"
  shows "s' = s \<or>
         (moveHistory s \<noteq> [] \<and>
          s' = s\<lparr>moveHistory := butlast (moveHistory s),
                 board := (board s)[nat (row (last (moveHistory s))) :=
                   (board s ! nat (row (last (moveHistory s))))[nat (col (last (moveHistory s))) := None]],
                 currentPlayer := player (last (moveHistory s))\<rparr>)"
proof (cases "moveHistory s = [] \<or> gameStatus s \<noteq> Playing")
  case True
  then have "undo s = (Inr False, s)" by (auto simp: undo_def)
  then show ?thesis using u by simp
next
  case False
  then have "last (moveHistory s) \<in> set (moveHistory s)" by simp
  then have "onBoard (row (last (moveHistory s))) (col (last (moveHistory s)))"
    using c by (simp add: consistent_def)
  moreover have "wf_board (board s)" using c by (simp add: consistent_def)
  ultimately show ?thesis
    using False u by (auto simp: undo_def Let_def writeCell_wf)
qed

lemma consistent_undone:
  assumes c: "consistent s" and ne: "moveHistory s \<noteq> []"
  shows "consistent (s\<lparr>moveHistory := butlast (moveHistory s),
                 board := (board s)[nat (row (last (moveHistory s))) :=
                   (board s ! nat (row (last (moveHistory s))))[nat (col (last (moveHistory s))) := None]],
                 currentPlayer := p\<rparr>)"
proof -
  obtain ms m where h: "moveHistory s = ms @ [m]"
    using ne by (metis append_butlast_last_id)
  let ?b = "(board s)[nat (row m) := (board s ! nat (row m))[nat (col m) := None]]"
  have wf: "wf_board (board s)" using c by (simp add: consistent_def)
  have m: "onBoard (row m) (col m)" "board s ! nat (row m) ! nat (col m) \<noteq> None"
    using c h by (simp_all add: consistent_def)
  have notin: "(row m, col m) \<notin> (\<lambda>m. (row m, col m)) ` set ms"
    and dist: "distinct (map (\<lambda>m. (row m, col m)) ms)"
    using c h by (simp_all add: consistent_def)
  have old: "onBoard (row x) (col x) \<and> ?b ! nat (row x) ! nat (col x) \<noteq> None"
    if x: "x \<in> set ms" for x
  proof -
    have on: "onBoard (row x) (col x)" and st: "board s ! nat (row x) ! nat (col x) \<noteq> None"
      using c h x by (simp_all add: consistent_def)
    have "(row x, col x) \<in> (\<lambda>m. (row m, col m)) ` set ms"
      using x by (rule imageI)
    with notin have "\<not> (row x = row m \<and> col x = col m)"
      by (cases "row x = row m \<and> col x = col m") simp_all
    then have "?b ! nat (row x) ! nat (col x) = board s ! nat (row x) ! nat (col x)"
      by (simp only: nth_board_update[OF wf m(1) on] if_False)
    with on st show ?thesis by simp
  qed
  have count: "stones ?b + 1 = stones (board s)"
    using stones_update[OF wf m(1), of None] m(2) by simp
  have len: "length ms + 1 = stones (board s)"
    using c h by (simp add: consistent_def)
  have "wf_board ?b" using wf by (rule wf_board_update)
  moreover have "\<forall>x \<in> set ms. onBoard (row x) (col x) \<and> ?b ! nat (row x) ! nat (col x) \<noteq> None"
    using old by blast
  moreover have "length ms = stones ?b" using count len by simp
  ultimately show ?thesis
    using dist by (simp add: consistent_def h)
qed

lemma reachable_consistent: "reachable s \<Longrightarrow> consistent s"
proof (induction rule: reachable.induct)
  case reachable_new
  show ?case by (rule consistent_new)
next
  case (reachable_makeMove s r c now res s')
  then have "wf_board (board s)" by (simp add: consistent_def)
  from makeMove_result[OF this reachable_makeMove.hyps(2)] reachable_makeMove.IH
  show ?case by (auto intro: consistent_placed)
next
  case (reachable_undo s res s')
  from undo_result[OF reachable_undo.IH reachable_undo.hyps(2)] reachable_undo.IH
  show ?case by (auto intro: consistent_undone)
next
  case (reachable_reset s)
  show ?case by (rule consistent_reset)
qed

subsection \<open>The encoding of a typed state loses nothing\<close>

lemma js_of_player_inj: "js_of_player p = js_of_player q \<Longrightarrow> p = q"
  by (cases p; cases q) (simp_all add: js_of_player_def)

lemma js_of_cell_inj: "js_of_cell x = js_of_cell y \<Longrightarrow> x = y"
  by (cases x; cases y)
     (auto simp: js_of_cell_def js_of_player_def split: player.splits dest: js_of_player_inj)

lemma js_of_status_inj: "js_of_status g = js_of_status h \<Longrightarrow> g = h"
  by (cases g; cases h) (simp_all add: js_of_status_def)

lemma js_of_move_inj: "js_of_move m = js_of_move n \<Longrightarrow> m = n"
  by (cases m; cases n) (auto simp: js_of_move_def dest: js_of_player_inj)

lemma js_of_board_inj: "js_of_board a = js_of_board b \<Longrightarrow> a = b"
proof -
  have cells: "inj js_of_cell" by (rule injI) (rule js_of_cell_inj)
  have rows: "inj (\<lambda>r. JArr (map js_of_cell r))"
    by (rule injI) (simp add: inj_map_eq_map[OF cells])
  assume "js_of_board a = js_of_board b"
  then show ?thesis by (simp add: js_of_board_def inj_map_eq_map[OF rows])
qed

lemma raw_of_inj: "inj raw_of"
proof (rule injI)
  fix s t :: game_board
  have moves: "inj js_of_move" by (rule injI) (rule js_of_move_inj)
  assume "raw_of s = raw_of t"
  then have "board s = board t" "moveHistory s = moveHistory t"
    "currentPlayer s = currentPlayer t" "gameStatus s = gameStatus t" "winner s = winner t"
    by (auto simp: raw_of_def inj_map_eq_map[OF moves]
        dest: js_of_board_inj js_of_player_inj js_of_status_inj js_of_cell_inj)
  then show "s = t" by simp
qed

subsection \<open>Display coordinates, case by case\<close>

lemma letters_all: "\<forall>c \<in> set [0..14]. letters ! nat c = char_of (65 + nat c)"
  by code_simp

lemma display_coords_all:
  "\<forall>r \<in> set [0..14]. \<forall>c \<in> set [0..14].
     displayToBoardCoords (boardToDisplayCoords r c) = Some (r, c)"
  by code_simp

subsection \<open>Evaluated examples\<close>

lemma wf_examples:
  "wf_board (board newGameBoard)" "wf_board (board afterFirstMove)"
  "wf_board fiveBlack" "wf_board fourBlocked" "wf_board fourAtEdge"
  by code_simp+

lemma makeMove_first: "makeMove 7 7 0 newGameBoard = Some (Inr True, afterFirstMove)"
  by code_simp

lemma playMoves_reachable:
  "reachable s \<Longrightarrow> playMoves ms s = Some s' \<Longrightarrow> reachable s'"
proof (induction ms arbitrary: s)
  case Nil
  then show ?case by simp
next
  case (Cons x ms)
  obtain r c where x: "x = (r, c)" by (cases x)
  from Cons.prems(2) x obtain res s1 where
    m: "makeMove r c 0 s = Some (res, s1)" and p: "playMoves ms s1 = Some s'"
    by (auto split: option.splits)
  from reachable_makeMove[OF Cons.prems(1) m] p show ?case by (rule Cons.IH)
qed

lemma playMoves_beforeWin:
  "playMoves [(7, 5), (8, 5), (7, 6), (8, 6), (7, 7), (8, 7), (7, 8), (8, 8)] newGameBoard =
     Some beforeWin"
  by code_simp

lemma makeMove_wins: "makeMove 7 9 0 beforeWin = Some (Inr True, wonGame)"
  by code_simp

lemma reachable_wonGame: "reachable wonGame"
  using reachable_makeMove[OF playMoves_reachable[OF reachable_new playMoves_beforeWin] makeMove_wins] .

section \<open>The claims\<close>

text \<open>
  C1. In a state whose status is Playing, on a board of fifteen by fifteen, a move to an
  empty cell of the board is accepted: \<^verbatim>\<open>makeMove\<close> returns \<^verbatim>\<open>true\<close>, the current
  player's stone is on the cell, the move with the next sequence number and the time of the
  call ends the history, and then, in this order: if \<^verbatim>\<open>checkWinner\<close> holds for the new
  stone the status is Won, the winner is the player who moved and the turn stays; otherwise
  if \<^verbatim>\<open>checkDraw\<close> holds the status is Draw and the turn stays; otherwise the turn
  passes to the other colour. Both checks return.
\<close>

theorem makeMove_accepts:
  assumes "wf_board (board s)" and "gameStatus s = Playing"
    and "onBoard r c" and "board s ! nat r ! nat c = None"
  shows "\<exists>b' w d.
           b' = (board s)[nat r := (board s ! nat r)[nat c := Some (currentPlayer s)]] \<and>
           b' ! nat r ! nat c = Some (currentPlayer s) \<and>
           checkWinner b' r c (currentPlayer s) = Some (Inr w) \<and>
           checkDraw b' = Inr d \<and>
           makeMove r c now s =
             Some (Inr True,
                   s\<lparr>board := b',
                     moveHistory := moveHistory s @
                       [\<lparr>row = r, col = c, player = currentPlayer s,
                         moveNumber = length (moveHistory s) + 1, timestamp = now\<rparr>],
                     currentPlayer := (if w \<or> d then currentPlayer s else other (currentPlayer s)),
                     gameStatus := (if w then Won else if d then Draw else Playing),
                     winner := (if w then Some (currentPlayer s) else winner s)\<rparr>)"
proof -
  from makeMove_wf[OF assms, of now] obtain w d where
    w: "checkWinner (board (placed r c now s)) r c (currentPlayer s) = Some (Inr w)" and
    d: "checkDraw (board (placed r c now s)) = Inr d" and
    m: "makeMove r c now s =
             Some (Inr True,
                   (placed r c now s)
                     \<lparr>currentPlayer := (if w \<or> d then currentPlayer s else other (currentPlayer s)),
                      gameStatus := (if w then Won else if d then Draw else Playing),
                      winner := (if w then Some (currentPlayer s) else winner s)\<rparr>)"
    by blast
  have n: "(board s)[nat r := (board s ! nat r)[nat c := Some (currentPlayer s)]] ! nat r ! nat c =
           Some (currentPlayer s)"
    using nth_board_update[OF assms(1) assms(3) assms(3)] by simp
  show ?thesis
    using w d m n by (simp add: placed_def)
qed

theorem makeMove_accepts_witness:
  "wf_board (board newGameBoard) \<and> gameStatus newGameBoard = Playing \<and> onBoard 7 7 \<and>
   board newGameBoard ! nat 7 ! nat 7 = None \<and>
   makeMove 7 7 0 newGameBoard = Some (Inr True, afterFirstMove) \<and>
   wf_board (board beforeWin) \<and> gameStatus beforeWin = Playing \<and> onBoard 7 9 \<and>
   board beforeWin ! nat 7 ! nat 9 = None \<and>
   makeMove 7 9 0 beforeWin = Some (Inr True, wonGame)"
proof -
  let ?b = "(board newGameBoard)[nat 7 :=
              (board newGameBoard ! nat 7)[nat 7 := Some (currentPlayer newGameBoard)]]"
  have h1: "wf_board (board newGameBoard)" by code_simp
  have h2: "gameStatus newGameBoard = Playing" by code_simp
  have h3: "onBoard 7 7" by code_simp
  have h4: "board newGameBoard ! nat 7 ! nat 7 = None" by code_simp
  have w: "checkWinner ?b 7 7 (currentPlayer newGameBoard) = Some (Inr False)" by code_simp
  have d: "checkDraw ?b = Inr False" by code_simp
  have e: "newGameBoard\<lparr>board := ?b,
             moveHistory := moveHistory newGameBoard @
               [\<lparr>row = 7, col = 7, player = currentPlayer newGameBoard,
                 moveNumber = length (moveHistory newGameBoard) + 1, timestamp = 0\<rparr>],
             currentPlayer := other (currentPlayer newGameBoard),
             gameStatus := Playing,
             winner := winner newGameBoard\<rparr> = afterFirstMove"
    by code_simp
  from makeMove_accepts[OF h1 h2 h3 h4, of 0] obtain b' w' d' where
    b: "b' = ?b" and
    w': "checkWinner b' 7 7 (currentPlayer newGameBoard) = Some (Inr w')" and
    d': "checkDraw b' = Inr d'" and
    m: "makeMove 7 7 0 newGameBoard =
          Some (Inr True,
                newGameBoard\<lparr>board := b',
                  moveHistory := moveHistory newGameBoard @
                    [\<lparr>row = 7, col = 7, player = currentPlayer newGameBoard,
                      moveNumber = length (moveHistory newGameBoard) + 1, timestamp = 0\<rparr>],
                  currentPlayer := (if w' \<or> d' then currentPlayer newGameBoard
                                    else other (currentPlayer newGameBoard)),
                  gameStatus := (if w' then Won else if d' then Draw else Playing),
                  winner := (if w' then Some (currentPlayer newGameBoard)
                             else winner newGameBoard)\<rparr>)"
    by blast
  have "w' = False" using w w' b by simp
  moreover have "d' = False" using d d' b by simp
  ultimately have first: "makeMove 7 7 0 newGameBoard = Some (Inr True, afterFirstMove)"
    using m b e by simp
  let ?c = "(board beforeWin)[nat 7 :=
              (board beforeWin ! nat 7)[nat 9 := Some (currentPlayer beforeWin)]]"
  have k1: "wf_board (board beforeWin)" by code_simp
  have k2: "gameStatus beforeWin = Playing" by code_simp
  have k3: "onBoard 7 9" by code_simp
  have k4: "board beforeWin ! nat 7 ! nat 9 = None" by code_simp
  have v: "checkWinner ?c 7 9 (currentPlayer beforeWin) = Some (Inr True)" by code_simp
  have f: "beforeWin\<lparr>board := ?c,
             moveHistory := moveHistory beforeWin @
               [\<lparr>row = 7, col = 9, player = currentPlayer beforeWin,
                 moveNumber = length (moveHistory beforeWin) + 1, timestamp = 0\<rparr>],
             currentPlayer := currentPlayer beforeWin,
             gameStatus := Won,
             winner := Some (currentPlayer beforeWin)\<rparr> = wonGame"
    by code_simp
  from makeMove_accepts[OF k1 k2 k3 k4, of 0] obtain c' v' u' where
    c: "c' = ?c" and
    v': "checkWinner c' 7 9 (currentPlayer beforeWin) = Some (Inr v')" and
    n: "makeMove 7 9 0 beforeWin =
          Some (Inr True,
                beforeWin\<lparr>board := c',
                  moveHistory := moveHistory beforeWin @
                    [\<lparr>row = 7, col = 9, player = currentPlayer beforeWin,
                      moveNumber = length (moveHistory beforeWin) + 1, timestamp = 0\<rparr>],
                  currentPlayer := (if v' \<or> u' then currentPlayer beforeWin
                                    else other (currentPlayer beforeWin)),
                  gameStatus := (if v' then Won else if u' then Draw else Playing),
                  winner := (if v' then Some (currentPlayer beforeWin)
                             else winner beforeWin)\<rparr>)"
    by blast
  have "v' = True" using v v' c by simp
  then have second: "makeMove 7 9 0 beforeWin = Some (Inr True, wonGame)"
    using n c f by simp
  from first second h1 h2 h3 h4 k1 k2 k3 k4 show ?thesis by simp
qed

text \<open>
  C2. On a board of fifteen by fifteen, for a cell of the board and either player,
  \<^verbatim>\<open>checkWinner\<close> returns, and returns \<^verbatim>\<open>true\<close> exactly when on one of the four axes
  through the cell the count is at least five, the count being one for the placed stone
  plus, along each of the two opposite rays, the cells holding the player's stone up to the
  first that does not or to the edge of the board.
\<close>

theorem checkWinner_five_in_a_row:
  assumes "wf_board b" and "onBoard r c"
  shows "checkWinner b r c p = Some (Inr (\<exists>axis \<in> set axes. 5 \<le> axisCount b p r c axis))"
  using checkWinner_wf[OF assms, of p] by (simp add: fiveInARow_def)

theorem checkWinner_five_in_a_row_witness:
  "wf_board fiveBlack \<and> onBoard 7 9 \<and> checkWinner fiveBlack 7 9 Black = Some (Inr True) \<and>
   wf_board fourBlocked \<and> onBoard 7 8 \<and> checkWinner fourBlocked 7 8 Black = Some (Inr False) \<and>
   wf_board fourAtEdge \<and> onBoard 7 0 \<and> checkWinner fourAtEdge 7 0 Black = Some (Inr False)"
proof -
  have h1: "wf_board fiveBlack" and h2: "onBoard 7 9"
    and h3: "wf_board fourBlocked" and h4: "onBoard 7 8"
    and h5: "wf_board fourAtEdge" and h6: "onBoard 7 0"
    by code_simp+
  have e1: "(\<exists>axis \<in> set axes. 5 \<le> axisCount fiveBlack Black 7 9 axis) = True"
    by code_simp
  have e2: "(\<exists>axis \<in> set axes. 5 \<le> axisCount fourBlocked Black 7 8 axis) = False"
    by code_simp
  have e3: "(\<exists>axis \<in> set axes. 5 \<le> axisCount fourAtEdge Black 7 0 axis) = False"
    by code_simp
  have "checkWinner fiveBlack 7 9 Black = Some (Inr True)"
    using checkWinner_five_in_a_row[OF h1 h2, of Black] by (simp only: e1)
  moreover have "checkWinner fourBlocked 7 8 Black = Some (Inr False)"
    using checkWinner_five_in_a_row[OF h3 h4, of Black] by (simp only: e2)
  moreover have "checkWinner fourAtEdge 7 0 Black = Some (Inr False)"
    using checkWinner_five_in_a_row[OF h5 h6, of Black] by (simp only: e3)
  ultimately show ?thesis using h1 h2 h3 h4 h5 h6 by simp
qed

text \<open>
  C3. \<^verbatim>\<open>undo\<close> returns \<^verbatim>\<open>false\<close> and leaves the whole state as it was exactly when
  the history is empty or the status is not Playing. In every other state, on a board of
  fifteen by fifteen whose last move lies on the board, it returns \<^verbatim>\<open>true\<close>, the history
  loses its last move and nothing else, the cell of that move is empty again, and the
  current player is the player of that move.
\<close>

theorem undo_behaviour:
  "((fst (undo s) = Inr False \<and> snd (undo s) = s) \<longleftrightarrow>
      (moveHistory s = [] \<or> gameStatus s \<noteq> Playing)) \<and>
   (moveHistory s \<noteq> [] \<and> gameStatus s = Playing \<and> wf_board (board s) \<and>
    onBoard (row (last (moveHistory s))) (col (last (moveHistory s))) \<longrightarrow>
      (\<exists>b'. b' = (board s)[nat (row (last (moveHistory s))) :=
                     (board s ! nat (row (last (moveHistory s))))
                       [nat (col (last (moveHistory s))) := None]] \<and>
            b' ! nat (row (last (moveHistory s))) ! nat (col (last (moveHistory s))) = None \<and>
            undo s = (Inr True,
                      s\<lparr>moveHistory := butlast (moveHistory s), board := b',
                        currentPlayer := player (last (moveHistory s))\<rparr>)))"
proof (rule conjI)
  show "(fst (undo s) = Inr False \<and> snd (undo s) = s) \<longleftrightarrow>
          (moveHistory s = [] \<or> gameStatus s \<noteq> Playing)"
  proof
    assume "fst (undo s) = Inr False \<and> snd (undo s) = s"
    then show "moveHistory s = [] \<or> gameStatus s \<noteq> Playing"
      by (cases "writeCell (board s) (row (last (moveHistory s))) (col (last (moveHistory s))) None")
         (auto simp: undo_def Let_def split: if_splits)
  next
    assume "moveHistory s = [] \<or> gameStatus s \<noteq> Playing"
    then show "fst (undo s) = Inr False \<and> snd (undo s) = s"
      by (auto simp: undo_def)
  qed
next
  let ?m = "last (moveHistory s)"
  show "moveHistory s \<noteq> [] \<and> gameStatus s = Playing \<and> wf_board (board s) \<and>
          onBoard (row ?m) (col ?m) \<longrightarrow>
        (\<exists>b'. b' = (board s)[nat (row ?m) := (board s ! nat (row ?m))[nat (col ?m) := None]] \<and>
            b' ! nat (row ?m) ! nat (col ?m) = None \<and>
            undo s = (Inr True,
                      s\<lparr>moveHistory := butlast (moveHistory s), board := b',
                        currentPlayer := player ?m\<rparr>))"
  proof
    assume a: "moveHistory s \<noteq> [] \<and> gameStatus s = Playing \<and> wf_board (board s) \<and>
               onBoard (row ?m) (col ?m)"
    then have wf: "wf_board (board s)" and on: "onBoard (row ?m) (col ?m)" by simp_all
    have n: "(board s)[nat (row ?m) := (board s ! nat (row ?m))[nat (col ?m) := None]]
               ! nat (row ?m) ! nat (col ?m) = None"
      using nth_board_update[OF wf on on] by simp
    show "\<exists>b'. b' = (board s)[nat (row ?m) := (board s ! nat (row ?m))[nat (col ?m) := None]] \<and>
              b' ! nat (row ?m) ! nat (col ?m) = None \<and>
              undo s = (Inr True,
                        s\<lparr>moveHistory := butlast (moveHistory s), board := b',
                          currentPlayer := player ?m\<rparr>)"
      using a n by (simp add: undo_def Let_def writeCell_wf[OF wf on])
  qed
qed

theorem undo_behaviour_witness:
  "undo newGameBoard = (Inr False, newGameBoard) \<and>
   undo wonGame = (Inr False, wonGame) \<and>
   undo afterFirstMove = (Inr True, newGameBoard)"
proof -
  let ?m = "last (moveHistory afterFirstMove)"
  have h: "moveHistory afterFirstMove \<noteq> [] \<and> gameStatus afterFirstMove = Playing \<and>
           wf_board (board afterFirstMove) \<and> onBoard (row ?m) (col ?m)"
    by code_simp
  have e: "afterFirstMove\<lparr>moveHistory := butlast (moveHistory afterFirstMove),
             board := (board afterFirstMove)[nat (row ?m) :=
                        (board afterFirstMove ! nat (row ?m))[nat (col ?m) := None]],
             currentPlayer := player ?m\<rparr> = newGameBoard"
    by code_simp
  have n: "moveHistory newGameBoard = []" by code_simp
  have f: "gameStatus wonGame \<noteq> Playing" by code_simp
  have "undo afterFirstMove = (Inr True, newGameBoard)"
    using undo_behaviour[of afterFirstMove] h e by auto
  moreover have "undo newGameBoard = (Inr False, newGameBoard)"
    using undo_behaviour[of newGameBoard] n by (simp add: prod_eq_iff)
  moreover have "undo wonGame = (Inr False, wonGame)"
    using undo_behaviour[of wonGame] f by (simp add: prod_eq_iff)
  ultimately show ?thesis by simp
qed




text \<open>
  C5. \<^verbatim>\<open>makeMove\<close> throws the game-over error whenever the status is not Playing, and
  the invalid-move error whenever the status is Playing and \<^verbatim>\<open>isValidMove\<close> is false;
  either way the state it leaves is the state it found.
\<close>

theorem makeMove_rejects:
  "(gameStatus s \<noteq> Playing \<longrightarrow> makeMove r c now s = Some (Inl GameOverError, s)) \<and>
   (gameStatus s = Playing \<and> isValidMove (board s) r c = Inr False \<longrightarrow>
      makeMove r c now s = Some (Inl InvalidMoveError, s))"
  by (simp add: makeMove_def)

theorem makeMove_rejects_witness:
  "gameStatus wonGame \<noteq> Playing \<and>
   makeMove 7 10 1 wonGame = Some (Inl GameOverError, wonGame) \<and>
   gameStatus afterFirstMove = Playing \<and> isValidMove (board afterFirstMove) 7 7 = Inr False \<and>
   makeMove 7 7 1 afterFirstMove = Some (Inl InvalidMoveError, afterFirstMove) \<and>
   isValidMove (board afterFirstMove) 15 0 = Inr False \<and>
   makeMove 15 0 1 afterFirstMove = Some (Inl InvalidMoveError, afterFirstMove)"
proof -
  have h1: "gameStatus wonGame \<noteq> Playing" by code_simp
  have h2: "gameStatus afterFirstMove = Playing" by code_simp
  have h3: "isValidMove (board afterFirstMove) 7 7 = Inr False" by code_simp
  have h4: "isValidMove (board afterFirstMove) 15 0 = Inr False" by code_simp
  show ?thesis
    using makeMove_rejects[of wonGame 7 10 1] makeMove_rejects[of afterFirstMove 7 7 1]
      makeMove_rejects[of afterFirstMove 15 0 1] h1 h2 h3 h4
    by simp
qed

text \<open>
  C6. In every state that \<^verbatim>\<open>makeMove\<close>, \<^verbatim>\<open>undo\<close> and \<^verbatim>\<open>reset\<close> can produce from
  a new game, the history has as many moves as the board has non-empty cells.
\<close>

theorem history_length_is_stones:
  "reachable s \<Longrightarrow> length (moveHistory s) = stones (board s)"
  using reachable_consistent[of s] by (simp add: consistent_def)

theorem history_length_is_stones_witness:
  "reachable afterFirstMove \<and> length (moveHistory afterFirstMove) = 1 \<and>
   stones (board afterFirstMove) = 1 \<and>
   reachable wonGame \<and> length (moveHistory wonGame) = 9 \<and> stones (board wonGame) = 9"
proof -
  have r: "reachable afterFirstMove"
    using reachable_makeMove[OF reachable_new makeMove_first] .
  have l: "length (moveHistory afterFirstMove) = 1" by code_simp
  have k: "length (moveHistory wonGame) = 9" by code_simp
  from history_length_is_stones[OF r] history_length_is_stones[OF reachable_wonGame]
    l k r reachable_wonGame
  show ?thesis by simp
qed

text \<open>
  C7. Loading what \<^verbatim>\<open>saveGame\<close> returned for a state puts that state's board, history,
  current player, status and winner into the five fields, whatever they held before, and
  no two states have the same five fields.
\<close>

theorem saveGame_loadGame_roundtrip:
  "loadGame ui (saveGame now s) t = (ui (raw_of s), raw_of s) \<and> inj raw_of"
proof
  show "loadGame ui (saveGame now s) t = (ui (raw_of s), raw_of s)"
    by (cases t)
       (simp add: loadGame_def saveGame_def JSON_parse_def JSON_stringify_def getProp_def
          getBoardCopy_def getMoveHistory_def getCurrentPlayer_def getGameStatus_def
          getWinner_def raw_of_def Let_def)
  show "inj raw_of" by (rule raw_of_inj)
qed

theorem saveGame_loadGame_roundtrip_witness:
  "loadGame (\<lambda>s. True) (saveGame 5 afterFirstMove) (raw_of newGameBoard) =
     (True, raw_of afterFirstMove) \<and>
   raw_of afterFirstMove \<noteq> raw_of newGameBoard"
proof -
  have "afterFirstMove \<noteq> newGameBoard" by code_simp
  then have "raw_of afterFirstMove \<noteq> raw_of newGameBoard"
    using saveGame_loadGame_roundtrip[of "\<lambda>s. True" 5 afterFirstMove "raw_of newGameBoard"]
    by (auto dest: injD)
  then show ?thesis
    using saveGame_loadGame_roundtrip[of "\<lambda>s. True" 5 afterFirstMove "raw_of newGameBoard"]
    by simp
qed

text \<open>
  C8. On a board of fifteen by fifteen \<^verbatim>\<open>isValidMove\<close> is true exactly for the
  coordinates from 0 to 14 whose cell is empty. Outside that range it returns \<^verbatim>\<open>false\<close>
  on any board at all, without reading the board, so nothing can be raised there.
\<close>

theorem isValidMove_iff:
  "(wf_board b \<longrightarrow>
      isValidMove b r c =
        Inr (0 \<le> r \<and> r < 15 \<and> 0 \<le> c \<and> c < 15 \<and> b ! nat r ! nat c = None)) \<and>
   (r < 0 \<or> 15 \<le> r \<or> c < 0 \<or> 15 \<le> c \<longrightarrow> isValidMove b r c = Inr False)"
  using isValidMove_wf[of b r c] isValidMove_off[of r c b]
  by (auto simp: onBoard_def)

theorem isValidMove_iff_witness:
  "wf_board createEmptyBoard \<and> isValidMove createEmptyBoard 7 7 = Inr True \<and>
   wf_board (board afterFirstMove) \<and> isValidMove (board afterFirstMove) 7 7 = Inr False \<and>
   isValidMove createEmptyBoard (- 1) 0 = Inr False \<and>
   isValidMove createEmptyBoard 15 0 = Inr False \<and>
   isValidMove createEmptyBoard 0 (- 1) = Inr False \<and>
   isValidMove createEmptyBoard 0 15 = Inr False \<and>
   isValidMove [] 15 15 = Inr False"
proof -
  have h1: "wf_board createEmptyBoard" and h2: "wf_board (board afterFirstMove)"
    by code_simp+
  have e1: "createEmptyBoard ! nat 7 ! nat 7 = None" by code_simp
  have e2: "board afterFirstMove ! nat 7 ! nat 7 \<noteq> None" by code_simp
  show ?thesis
    using isValidMove_iff[of createEmptyBoard 7 7] isValidMove_iff[of "board afterFirstMove" 7 7]
      isValidMove_iff[of createEmptyBoard "- 1" 0] isValidMove_iff[of createEmptyBoard 15 0]
      isValidMove_iff[of createEmptyBoard 0 "- 1"] isValidMove_iff[of createEmptyBoard 0 15]
      isValidMove_iff[of "[]" 15 15] h1 h2 e1 e2
    by simp
qed

text \<open>
  C9. For a row and a column from 0 to 14 the display coordinate is the letter of the
  column, A for 0 up to O for 14, followed by the decimal number fifteen minus the row, and
  \<^verbatim>\<open>displayToBoardCoords\<close> maps that string back to the row and the column it came from.
  The corner \<open>(0, 0)\<close> is \<^verbatim>\<open>A15\<close>, the corner \<open>(14, 14)\<close> is \<^verbatim>\<open>O1\<close>.
\<close>

theorem display_coords_roundtrip:
  "(0 \<le> r \<and> r < 15 \<and> 0 \<le> c \<and> c < 15 \<longrightarrow>
      boardToDisplayCoords r c = letters ! nat c # numberToString (15 - r) \<and>
      letters ! nat c = char_of (65 + nat c) \<and>
      displayToBoardCoords (boardToDisplayCoords r c) = Some (r, c)) \<and>
   boardToDisplayCoords 0 0 = ''A15'' \<and> boardToDisplayCoords 14 14 = ''O1''"
proof -
  have "boardToDisplayCoords r c = letters ! nat c # numberToString (15 - r) \<and>
      letters ! nat c = char_of (65 + nat c) \<and>
      displayToBoardCoords (boardToDisplayCoords r c) = Some (r, c)"
    if a: "0 \<le> r \<and> r < 15 \<and> 0 \<le> c \<and> c < 15"
  proof -
    from a have m: "r \<in> set [0..14]" "c \<in> set [0..14]" by simp_all
    have "boardToDisplayCoords r c = letters ! nat c # numberToString (15 - r)"
      using a by (simp add: boardToDisplayCoords_def letters_def)
    moreover have "letters ! nat c = char_of (65 + nat c)"
      using letters_all m(2) by blast
    moreover have "displayToBoardCoords (boardToDisplayCoords r c) = Some (r, c)"
      using display_coords_all m by blast
    ultimately show ?thesis by simp
  qed
  moreover have "boardToDisplayCoords 0 0 = ''A15''" by code_simp
  moreover have "boardToDisplayCoords 14 14 = ''O1''" by code_simp
  ultimately show ?thesis by blast
qed

theorem display_coords_roundtrip_witness:
  "boardToDisplayCoords 7 7 = ''H8'' \<and> displayToBoardCoords ''H8'' = Some (7, 7) \<and>
   boardToDisplayCoords 0 0 = ''A15'' \<and> displayToBoardCoords ''A15'' = Some (0, 0)"
proof -
  have h7: "(0::int) \<le> 7 \<and> (7::int) < 15 \<and> (0::int) \<le> 7 \<and> (7::int) < 15" by simp
  have h0: "(0::int) \<le> 0 \<and> (0::int) < 15 \<and> (0::int) \<le> 0 \<and> (0::int) < 15" by simp
  note r7 = display_coords_roundtrip[of 7 7, THEN conjunct1, THEN mp, OF h7]
  note r0 = display_coords_roundtrip[of 0 0, THEN conjunct1, THEN mp, OF h0]
  note a15 = display_coords_roundtrip[of 0 0, THEN conjunct2, THEN conjunct1]
  have e: "boardToDisplayCoords 7 7 = ''H8''" by code_simp
  have "displayToBoardCoords ''H8'' = Some (7, 7)"
    using r7[THEN conjunct2, THEN conjunct2] unfolding e .
  moreover have "displayToBoardCoords ''A15'' = Some (0, 0)"
    using r0[THEN conjunct2, THEN conjunct2] unfolding a15 .
  ultimately show ?thesis using e a15 by simp
qed

text \<open>
  C10. For coordinates outside 0 to 14, in any state, \<^verbatim>\<open>getPiece\<close> returns
  \<^verbatim>\<open>null\<close> without reading the board, so \<^verbatim>\<open>isEmpty\<close> returns \<^verbatim>\<open>true\<close>, while
  \<^verbatim>\<open>isValidMove\<close> returns \<^verbatim>\<open>false\<close> for the same coordinates.
\<close>

theorem getPiece_out_of_range:
  "r < 0 \<or> 15 \<le> r \<or> c < 0 \<or> 15 \<le> c \<Longrightarrow>
   getPiece s r c = Inr (Defined None) \<and> isEmpty s r c = Inr True \<and>
   isValidMove (board s) r c = Inr False"
  by (auto simp: getPiece_def isEmpty_def isValidMove_def boardSize_def BOARD_SIZE_def)

theorem getPiece_out_of_range_witness:
  "getPiece afterFirstMove (- 1) 0 = Inr (Defined None) \<and>
   isEmpty afterFirstMove (- 1) 0 = Inr True \<and>
   isValidMove (board afterFirstMove) (- 1) 0 = Inr False \<and>
   getPiece afterFirstMove 7 15 = Inr (Defined None) \<and>
   isEmpty afterFirstMove 7 15 = Inr True \<and>
   isValidMove (board afterFirstMove) 7 15 = Inr False"
  using getPiece_out_of_range[of "- 1" 0 afterFirstMove]
    getPiece_out_of_range[of 7 15 afterFirstMove]
  by simp

end
